theory Spec2Isabelle
  imports Main
begin

section \<open>Data model of msg_split.py\<close>

text \<open>
  Python strings are modelled as \<^typ>\<open>string\<close>, one \<^typ>\<open>char\<close> per code point
  (code points below 256). An attribute is a key with an optional value (the parser
  reports \<open>None\<close> for an attribute without a value); an entry of \<open>open_tags\<close> is a
  tag name with its attribute list.
\<close>

type_synonym attr = "string \<times> string option"
type_synonym tag = "string \<times> attr list"

text \<open>
  The callbacks that \<open>HTMLParser.feed\<close> makes while it scans its input.
  \<open>HTMLFragmentParser\<close> overrides \<open>handle_starttag\<close> and \<open>handle_endtag\<close> only;
  \<open>handle_data\<close> (and every other callback of the base class) is inherited and does
  nothing. \<open>handle_startendtag\<close> of the base class calls \<open>handle_starttag\<close>
  and then \<open>handle_endtag\<close>, so it is the two events in a row.
\<close>

datatype event = StartTag string "attr list" | EndTag string | Data string

text \<open>
  The scanning part of the library class \<open>html.parser.HTMLParser\<close> is not part of
  the repository. It is taken as a parameter: a scanner has an internal state (the
  unprocessed input, the CDATA mode), the value \<open>sc_init\<close> that \<open>__init__\<close> and
  \<open>reset\<close> give that state, and \<open>sc_feed\<close>, which consumes a piece of input and
  returns the callbacks made, in order, with the new internal state. \<open>sc_feed\<close>
  describes a call of \<open>feed\<close> that returns. The library can also raise on its
  input; which calls raise, and what, is a second parameter, introduced with
  \<open>run_feeds\<close> below.
\<close>

record 's scanner =
  sc_init :: 's
  sc_feed :: "'s \<Rightarrow> string \<Rightarrow> event list \<times> 's"

record 's html_fragment_parser =
  open_tags :: "tag list"
  raw :: 's

section \<open>HTMLFragmentParser\<close>

definition new_parser :: "'s scanner \<Rightarrow> 's html_fragment_parser" where
  "new_parser sc = \<lparr>open_tags = [], raw = sc_init sc\<rparr>"

definition handle_starttag :: "tag list \<Rightarrow> string \<Rightarrow> attr list \<Rightarrow> tag list" where
  "handle_starttag tags t attrs = tags @ [(t, attrs)]"

text \<open>
  The loop \<open>for i in range(len(open_tags) - 1, -1, -1)\<close>: the first argument is the
  number of indices still to visit, so the index visited is one less.
\<close>

fun endtag_loop :: "nat \<Rightarrow> tag list \<Rightarrow> string \<Rightarrow> tag list" where
  "endtag_loop 0 tags t = tags"
| "endtag_loop (Suc i) tags t =
     (if fst (tags ! i) = t then take i tags @ drop (Suc i) tags
      else endtag_loop i tags t)"

definition handle_endtag :: "tag list \<Rightarrow> string \<Rightarrow> tag list" where
  "handle_endtag tags t = endtag_loop (length tags) tags t"

definition handle_data :: "tag list \<Rightarrow> string \<Rightarrow> tag list" where
  "handle_data tags d = tags"

fun handle :: "tag list \<Rightarrow> event \<Rightarrow> tag list" where
  "handle tags (StartTag t attrs) = handle_starttag tags t attrs"
| "handle tags (EndTag t) = handle_endtag tags t"
| "handle tags (Data d) = handle_data tags d"

definition get_open_tags :: "'s html_fragment_parser \<Rightarrow> tag list" where
  "get_open_tags p = open_tags p"

text \<open>
  \<open>feed\<close> hands the data to the scanner and runs the callbacks on \<open>open_tags\<close>.
  \<open>reset\<close> is inherited from the base class: it puts the scanner back into its
  initial state and leaves \<open>open_tags\<close>, an attribute of the subclass, as it is.
\<close>

definition feed :: "'s scanner \<Rightarrow> 's html_fragment_parser \<Rightarrow> string \<Rightarrow> 's html_fragment_parser" where
  "feed sc p data =
     (case sc_feed sc (raw p) data of
        (evs, s') \<Rightarrow> \<lparr>open_tags = foldl handle (open_tags p) evs, raw = s'\<rparr>)"

definition reset :: "'s scanner \<Rightarrow> 's html_fragment_parser \<Rightarrow> 's html_fragment_parser" where
  "reset sc p = p\<lparr>raw := sc_init sc\<rparr>"

section \<open>Rendering tags\<close>

definition dquote :: char where
  "dquote = CHR 0x22"

fun join :: "string \<Rightarrow> string list \<Rightarrow> string" where
  "join sep [] = []"
| "join sep [x] = x"
| "join sep (x # y # ys) = x @ sep @ join sep (y # ys)"

text \<open>The f-string \<open>{key}="{value}"\<close>; a value \<open>None\<close> is formatted as \<open>None\<close>.\<close>

definition render_attr :: "attr \<Rightarrow> string" where
  "render_attr a =
     fst a @ [CHR ''='', dquote] @ (case snd a of None \<Rightarrow> ''None'' | Some v \<Rightarrow> v) @ [dquote]"

definition render_open :: "tag \<Rightarrow> string" where
  "render_open tg =
     (let attrs_str = join '' '' (map render_attr (snd tg))
      in if attrs_str \<noteq> [] then ''<'' @ fst tg @ '' '' @ attrs_str @ ''>''
         else ''<'' @ fst tg @ ''>'')"

definition rebuild_open_tags :: "tag list \<Rightarrow> string" where
  "rebuild_open_tags tags = concat (map render_open tags)"

definition rebuild_close_tags :: "tag list \<Rightarrow> string" where
  "rebuild_close_tags tags = concat (map (\<lambda>tg. ''</'' @ fst tg @ ''>'') (rev tags))"

section \<open>The tokenizer\<close>

text \<open>
  \<open>\w\<close> of Python's \<open>re\<close> on a \<open>str\<close> pattern: the underscore and the alphanumeric
  code points, here those below 256.
\<close>

definition is_word_char :: "char \<Rightarrow> bool" where
  "is_word_char c =
     (let n = (of_char c :: nat)
      in (48 \<le> n \<and> n \<le> 57) \<or> (65 \<le> n \<and> n \<le> 90) \<or> n = 95 \<or> (97 \<le> n \<and> n \<le> 122)
         \<or> n = 170 \<or> n = 178 \<or> n = 179 \<or> n = 181 \<or> n = 185 \<or> n = 186
         \<or> (188 \<le> n \<and> n \<le> 190) \<or> (192 \<le> n \<and> n \<le> 214) \<or> (216 \<le> n \<and> n \<le> 246)
         \<or> 248 \<le> n)"

text \<open>
  The first alternative of the pattern, \<open></?\w+[^>]*>\<close>, tried at the head of the
  input: after \<open><\<close> and an optional \<open>/\<close> comes a word character, and the match
  runs to the first \<open>>\<close> after it. The result is the match and the rest of the input.
\<close>

definition match_tag :: "string \<Rightarrow> (string \<times> string) option" where
  "match_tag s =
     (case s of
        [] \<Rightarrow> None
      | c # body \<Rightarrow>
          if c \<noteq> CHR ''<'' then None
          else
            (let slash = (case body of [] \<Rightarrow> [] | d # _ \<Rightarrow> if d = CHR ''/'' then [d] else []);
                 r1 = drop (length slash) body
             in case r1 of
                  [] \<Rightarrow> None
                | w # r2 \<Rightarrow>
                    if is_word_char w \<and> CHR ''>'' \<in> set r2
                    then Some (c # slash @ w # takeWhile (\<lambda>x. x \<noteq> CHR ''>'') r2 @ [CHR ''>''],
                               tl (dropWhile (\<lambda>x. x \<noteq> CHR ''>'') r2))
                    else None))"

lemma match_tag_split:
  assumes "match_tag s = Some (tok, rest)"
  shows "s = tok @ rest"
proof -
  have tw: "takeWhile (\<lambda>x. x \<noteq> CHR ''>'') r @ CHR ''>'' # tl (dropWhile (\<lambda>x. x \<noteq> CHR ''>'') r) = r"
    if "CHR ''>'' \<in> set r" for r :: string
    using that by (induction r) auto
  from assms show ?thesis
    by (auto simp: match_tag_def Let_def tw split: list.splits if_splits)
qed

lemma match_tag_nonempty:
  "match_tag s = Some (tok, rest) \<Longrightarrow> tok \<noteq> []"
  by (auto simp: match_tag_def Let_def split: list.splits if_splits)

lemma match_tag_shorter:
  "match_tag s = Some (tok, rest) \<Longrightarrow> length rest < length s"
  using match_tag_split [of s tok rest] match_tag_nonempty [of s tok rest] by auto

text \<open>
  \<open>re.finditer\<close> with the pattern \<open>(</?\w+[^>]*>|[^<]+)\<close>: at each position the tag
  alternative is tried first, then the run of characters other than \<open><\<close>; where
  neither matches (a \<open><\<close> that starts no tag) the search moves on by one character.
\<close>

function tokenize :: "string \<Rightarrow> string list" where
  "tokenize [] = []"
| "tokenize (c # cs) =
     (case match_tag (c # cs) of
        Some (tok, rest) \<Rightarrow> tok # tokenize rest
      | None \<Rightarrow>
          if c = CHR ''<'' then tokenize cs
          else takeWhile (\<lambda>x. x \<noteq> CHR ''<'') (c # cs)
                 # tokenize (dropWhile (\<lambda>x. x \<noteq> CHR ''<'') (c # cs)))"
  by pat_completeness auto
termination
proof (relation "measure length")
  show "wf (measure length)" by simp
next
  fix c cs x2 tok rest
  assume "match_tag (c # cs) = Some x2" "(tok, rest) = x2"
  then show "(rest, c # cs) \<in> measure length"
    using match_tag_shorter [of "c # cs" tok rest] by simp
next
  fix c :: char and cs
  show "(cs, c # cs) \<in> measure length" by simp
next
  fix c :: char and cs
  assume "c \<noteq> CHR ''<''"
  then show "(dropWhile (\<lambda>x. x \<noteq> CHR ''<'') (c # cs), c # cs) \<in> measure length"
    by (simp add: le_imp_less_Suc length_dropWhile_le)
qed

section \<open>split_message\<close>

text \<open>
  The exceptions that can end the generator: the one of its own code, reading
  \<open>close_tags\<close> unbound, and the one the library parser raises on input it refuses.
\<close>

datatype error = UnboundLocalError | AssertionError

text \<open>
  The local variables of the generator, with the fragments yielded so far. A
  yielded fragment is kept as the pair of \<open>current_fragment\<close> and \<open>close_tags\<close>
  at the \<open>yield\<close>; \<open>fragment_of\<close> is the string
  \<open>"".join(current_fragment) + close_tags\<close> that is yielded. \<open>close_tags\<close> is
  unbound (\<open>None\<close>) until the loop body has run once.
\<close>

record 's split_state =
  current_fragment :: "string list"
  current_length :: int
  parser :: "'s html_fragment_parser"
  close_tags :: "string option"
  yielded :: "(string list \<times> string) list"

definition fragment_of :: "string list \<times> string \<Rightarrow> string" where
  "fragment_of fr = concat (fst fr) @ snd fr"

definition init_state :: "'s scanner \<Rightarrow> 's split_state" where
  "init_state sc =
     \<lparr>current_fragment = [], current_length = 0, parser = new_parser sc,
      close_tags = None, yielded = []\<rparr>"

text \<open>The overflow test of the loop body, on the state before the token is placed.\<close>

definition overflows :: "int \<Rightarrow> 's split_state \<Rightarrow> string \<Rightarrow> bool" where
  "overflows max_len st part =
     (current_length st + int (length part)
        + int (length (rebuild_close_tags (get_open_tags (parser st)))) > max_len)"

text \<open>One iteration of the \<open>for\<close> loop, for the token \<open>part\<close>.\<close>

definition step :: "'s scanner \<Rightarrow> int \<Rightarrow> 's split_state \<Rightarrow> string \<Rightarrow> 's split_state" where
  "step sc max_len st part =
     (let part_len = int (length part);
          close = rebuild_close_tags (get_open_tags (parser st));
          st1 =
            (if overflows max_len st part
             then
               (let p = reset sc (parser st);
                    open_tags_rebuilt = rebuild_open_tags (get_open_tags p)
                in st\<lparr>yielded := yielded st @ [(current_fragment st, close)],
                      parser := p,
                      current_fragment := [open_tags_rebuilt, part],
                      current_length := int (length open_tags_rebuilt) + part_len,
                      close_tags := Some close\<rparr>)
             else
               st\<lparr>current_fragment := current_fragment st @ [part],
                   current_length := current_length st + part_len,
                   close_tags := Some close\<rparr>)
      in st1\<lparr>parser := feed sc (parser st1) part\<rparr>)"

text \<open>
  What follows the loop: the last fragment, with the value \<open>close_tags\<close> has at that
  point. Reading the variable while it is unbound raises \<open>UnboundLocalError\<close>.
\<close>

definition finish :: "'s split_state \<Rightarrow> error + (string list \<times> string) list" where
  "finish st =
     (if current_fragment st \<noteq> []
      then (case close_tags st of
              None \<Rightarrow> Inl UnboundLocalError
            | Some close \<Rightarrow> Inr (yielded st @ [(current_fragment st, close)]))
      else Inr (yielded st))"

text \<open>The state when the \<open>for\<close> loop has consumed every token of the source.\<close>

definition run_loop :: "'s scanner \<Rightarrow> string \<Rightarrow> int \<Rightarrow> 's split_state" where
  "run_loop sc source max_len = foldl (step sc max_len) (init_state sc) (tokenize source)"

definition split_parts :: "'s scanner \<Rightarrow> string \<Rightarrow> int \<Rightarrow> error + (string list \<times> string) list" where
  "split_parts sc source max_len = finish (run_loop sc source max_len)"

definition split_message :: "'s scanner \<Rightarrow> string \<Rightarrow> int \<Rightarrow> error + string list" where
  "split_message sc source max_len = map_sum id (map fragment_of) (split_parts sc source max_len)"




text \<open>
  A fragment on its own: tokenized with the same tokenizer and fed to a fresh
  tracker, the tags left open at its end.
\<close>

definition open_after :: "'s scanner \<Rightarrow> string \<Rightarrow> tag list" where
  "open_after sc frag = get_open_tags (foldl (feed sc) (new_parser sc) (tokenize frag))"

section \<open>A scanner for attribute-free markup\<close>

text \<open>
  A concrete scanner, for running the splitter on examples. It follows
  \<open>HTMLParser.feed\<close> on the tokens \<open><name>\<close> and \<open></name>\<close>, where the name is an
  ASCII letter followed by ASCII letters and digits, and on character data: the name
  is reported in lower case, and after \<open><script>\<close> or \<open><style>\<close> everything up to
  the matching end tag is character data (the state is \<open>cdata_elem\<close>). Any other
  token is reported as character data; the library's treatment of attributes,
  comments and incomplete tags is not part of this scanner.
\<close>

definition is_ascii_alpha :: "char \<Rightarrow> bool" where
  "is_ascii_alpha c =
     (let n = (of_char c :: nat) in (65 \<le> n \<and> n \<le> 90) \<or> (97 \<le> n \<and> n \<le> 122))"

definition is_ascii_digit :: "char \<Rightarrow> bool" where
  "is_ascii_digit c = (let n = (of_char c :: nat) in 48 \<le> n \<and> n \<le> 57)"

definition lower_char :: "char \<Rightarrow> char" where
  "lower_char c =
     (let n = (of_char c :: nat) in if 65 \<le> n \<and> n \<le> 90 then char_of (n + 32) else c)"

definition plain_name :: "string \<Rightarrow> bool" where
  "plain_name s =
     (case s of
        [] \<Rightarrow> False
      | c # cs \<Rightarrow> is_ascii_alpha c \<and> list_all (\<lambda>x. is_ascii_alpha x \<or> is_ascii_digit x) cs)"

text \<open>The tag a token stands for: \<open>(is_end, name)\<close>, for the two shapes above.\<close>

definition plain_tag :: "string \<Rightarrow> (bool \<times> string) option" where
  "plain_tag part =
     (case part of
        [] \<Rightarrow> None
      | c # r \<Rightarrow>
          if c = CHR ''<'' \<and> r \<noteq> [] \<and> last r = CHR ''>''
          then (let b = butlast r;
                    is_end = (b \<noteq> [] \<and> hd b = CHR ''/'');
                    nm = (if is_end then tl b else b)
                in if plain_name nm then Some (is_end, map lower_char nm) else None)
          else None)"

definition html_feed :: "string option \<Rightarrow> string \<Rightarrow> event list \<times> string option" where
  "html_feed cdata_elem part =
     (case cdata_elem of
        Some elem \<Rightarrow>
          (if plain_tag part = Some (True, elem) then ([EndTag elem], None)
           else ([Data part], cdata_elem))
      | None \<Rightarrow>
          (case plain_tag part of
             Some (is_end, nm) \<Rightarrow>
               if is_end then ([EndTag nm], None)
               else ([StartTag nm []],
                     if nm = ''script'' \<or> nm = ''style'' then Some nm else None)
           | None \<Rightarrow> ([Data part], None)))"

definition html_scan :: "string option scanner" where
  "html_scan = \<lparr>sc_init = None, sc_feed = html_feed\<rparr>"





section \<open>The structure of the yielded fragments\<close>







section \<open>The tag tracker\<close>

lemma endtag_loop_no_match:
  "n \<le> length tags \<Longrightarrow> t \<notin> fst ` set (take n tags) \<Longrightarrow> endtag_loop n tags t = tags"
proof (induction n)
  case 0
  then show ?case by simp
next
  case (Suc n)
  then have "take (Suc n) tags = take n tags @ [tags ! n]"
    by (simp add: take_Suc_conv_app_nth)
  with Suc show ?case by auto
qed

lemma endtag_loop_last_match:
  "k \<le> length post \<Longrightarrow> t \<notin> fst ` set (take k post) \<Longrightarrow>
   endtag_loop (Suc (length pre + k)) (pre @ (t, a) # post) t = pre @ post"
proof (induction k)
  case 0
  then show ?case by simp
next
  case (Suc k)
  then have tk: "take (Suc k) post = take k post @ [post ! k]"
    by (simp add: take_Suc_conv_app_nth)
  have nth: "(pre @ (t, a) # post) ! Suc (length pre + k) = post ! k"
    by (simp add: nth_append)
  from Suc tk have "fst (post ! k) \<noteq> t" by auto
  moreover from Suc tk have "endtag_loop (Suc (length pre + k)) (pre @ (t, a) # post) t = pre @ post"
    by auto
  ultimately show ?case using nth by simp
qed

text \<open>
  Claim C7. An end tag removes from \<open>open_tags\<close> exactly the last entry with its
  name, whatever was pushed after that entry stays where it is; an end tag whose name
  is not on the stack changes nothing (and nothing is raised: the handler is total).
  A start tag pushes one entry at the end; character data leaves the stack as it is.
\<close>

theorem end_tag_removes_last_match:
  "(t \<notin> fst ` set tags \<longrightarrow> handle tags (EndTag t) = tags)
   \<and> (\<forall>pre a post. tags = pre @ (t, a) # post \<and> t \<notin> fst ` set post
         \<longrightarrow> handle tags (EndTag t) = pre @ post)
   \<and> handle tags (StartTag t attrs) = tags @ [(t, attrs)]
   \<and> handle tags (Data d) = tags"
proof -
  have "handle tags (EndTag t) = tags" if "t \<notin> fst ` set tags"
    using that endtag_loop_no_match [of "length tags" tags t] by (simp add: handle_endtag_def)
  moreover have "handle tags (EndTag t) = pre @ post"
    if "tags = pre @ (t, a) # post" "t \<notin> fst ` set post" for pre a post
    using that endtag_loop_last_match [of "length post" post t pre a]
    by (simp add: handle_endtag_def)
  ultimately show ?thesis
    by (simp add: handle_starttag_def handle_data_def)
qed

theorem end_tag_removes_last_match_witness:
  "handle [(''a'', []), (''b'', []), (''a'', [(''k'', Some ''v'')]), (''c'', [])] (EndTag ''a'')
     = [(''a'', []), (''b'', []), (''c'', [])]
   \<and> handle [(''a'', []), (''b'', [])] (EndTag ''x'') = [(''a'', []), (''b'', [])]"
proof -
  have "handle [(''a'', []), (''b'', []), (''a'', [(''k'', Some ''v'')]), (''c'', [])] (EndTag ''a'')
          = [(''a'', []), (''b'', [])] @ [(''c'', [])]"
    using end_tag_removes_last_match
      [of "''a''" "[(''a'', []), (''b'', []), (''a'', [(''k'', Some ''v'')]), (''c'', [])]",
       THEN conjunct2, THEN conjunct1, rule_format,
       of "[(''a'', []), (''b'', [])]" "[(''k'', Some ''v'')]" "[(''c'', [])]"]
    by simp
  moreover have "handle [(''a'', []), (''b'', [])] (EndTag ''x'') = [(''a'', []), (''b'', [])]"
    using end_tag_removes_last_match [of "''x''" "[(''a'', []), (''b'', [])]", THEN conjunct1]
    by simp
  ultimately show ?thesis by simp
qed

section \<open>One iteration of the loop\<close>

lemma step_fits:
  assumes "\<not> overflows m st part"
  shows "yielded (step sc m st part) = yielded st"
    and "current_fragment (step sc m st part) = current_fragment st @ [part]"
    and "current_length (step sc m st part) = current_length st + int (length part)"
    and "close_tags (step sc m st part) = Some (rebuild_close_tags (get_open_tags (parser st)))"
    and "parser (step sc m st part) = feed sc (parser st) part"
  using assms by (simp_all add: step_def Let_def)

lemma step_cuts:
  assumes "overflows m st part"
  shows "yielded (step sc m st part)
           = yielded st @ [(current_fragment st, rebuild_close_tags (get_open_tags (parser st)))]"
    and "current_fragment (step sc m st part)
           = [rebuild_open_tags (get_open_tags (parser st)), part]"
    and "current_length (step sc m st part)
           = int (length (rebuild_open_tags (get_open_tags (parser st)))) + int (length part)"
    and "close_tags (step sc m st part) = Some (rebuild_close_tags (get_open_tags (parser st)))"
    and "parser (step sc m st part) = feed sc (reset sc (parser st)) part"
  using assms by (simp_all add: step_def Let_def reset_def get_open_tags_def)

text \<open>
  Claim C5. The overflow test is a strict \<open>>\<close>: the iteration appends the token to
  the current fragment, yielding nothing, if and only if \<open>current_length\<close> plus
  the token's length plus the length of the closing tags for the tags open before
  the token is at most \<open>max_len\<close>. When that sum is exactly \<open>max_len\<close> the token is
  appended, so the accumulator with its closing tags reaches \<open>max_len\<close> exactly.
\<close>

theorem token_appended_iff_fits:
  "((yielded (step sc max_len st part) = yielded st
      \<and> current_fragment (step sc max_len st part) = current_fragment st @ [part]
      \<and> current_length (step sc max_len st part) = current_length st + int (length part))
     = (current_length st + int (length part)
          + int (length (rebuild_close_tags (get_open_tags (parser st)))) \<le> max_len))
   \<and> (current_length st + int (length part)
          + int (length (rebuild_close_tags (get_open_tags (parser st)))) = max_len
        \<longrightarrow> yielded (step sc max_len st part) = yielded st
          \<and> current_length (step sc max_len st part)
              + int (length (rebuild_close_tags (get_open_tags (parser st)))) = max_len)"
proof (cases "overflows max_len st part")
  case True
  then show ?thesis
    using step_cuts(1) [OF True, of sc] by (simp add: overflows_def)
next
  case False
  then show ?thesis
    using step_fits(1,2,3) [OF False, of sc] by (auto simp add: overflows_def)
qed

theorem token_appended_iff_fits_witness:
  "current_length (init_state html_scan) + int (length ''abc'')
      + int (length (rebuild_close_tags (get_open_tags (parser (init_state html_scan))))) = 3
   \<and> yielded (step html_scan 3 (init_state html_scan) ''abc'') = []
   \<and> current_fragment (step html_scan 3 (init_state html_scan) ''abc'') = [''abc'']
   \<and> current_length (step html_scan 3 (init_state html_scan) ''abc'') = 3"
proof -
  have h: "current_length (init_state html_scan) + int (length ''abc'')
      + int (length (rebuild_close_tags (get_open_tags (parser (init_state html_scan))))) = 3"
    by (simp add: init_state_def new_parser_def get_open_tags_def rebuild_close_tags_def)
  have e: "yielded (init_state html_scan) = []" "current_fragment (init_state html_scan) = []"
    "current_length (init_state html_scan) = 0"
    by (simp_all add: init_state_def)
  from token_appended_iff_fits [of html_scan 3 "init_state html_scan" "''abc''"] h e
  show ?thesis by simp
qed

section \<open>The loop invariant\<close>














section \<open>Tokens are placed whole\<close>



section \<open>Cutting a fragment\<close>

text \<open>
  Claim C6. When the token does not fit, the fragment yielded is the accumulated
  text followed by the closing tags of the tags open at the cut; the new accumulator
  is exactly the reopening prefix, which renders those tags in the order they were
  opened and with their attributes, followed by the token; and \<open>current_length\<close>
  is the length of that prefix plus the length of the token.
\<close>

theorem cut_closes_and_reopens:
  assumes "current_length st + int (length part)
             + int (length (rebuild_close_tags (get_open_tags (parser st)))) > max_len"
  shows "yielded (step sc max_len st part)
           = yielded st @ [(current_fragment st, rebuild_close_tags (get_open_tags (parser st)))]
     \<and> fragment_of (last (yielded (step sc max_len st part)))
           = concat (current_fragment st) @ rebuild_close_tags (get_open_tags (parser st))
     \<and> current_fragment (step sc max_len st part)
           = [concat (map render_open (get_open_tags (parser st))), part]
     \<and> current_length (step sc max_len st part)
           = int (length (concat (map render_open (get_open_tags (parser st))))) + int (length part)"
proof -
  from assms have ov: "overflows max_len st part"
    by (simp add: overflows_def)
  show ?thesis
    using step_cuts [OF ov, of sc]
    by (simp add: fragment_of_def rebuild_open_tags_def)
qed

theorem cut_closes_and_reopens_witness:
  "yielded (step html_scan 20
      \<lparr>current_fragment = [''<a href=x>'', ''<b>'', ''hello''], current_length = 18,
       parser = \<lparr>open_tags = [(''a'', [(''href'', Some ''x'')]), (''b'', [])], raw = None\<rparr>,
       close_tags = Some ''</b></a>'', yielded = []\<rparr> ''world wide'')
     = [([''<a href=x>'', ''<b>'', ''hello''], ''</b></a>'')]
   \<and> current_fragment (step html_scan 20
      \<lparr>current_fragment = [''<a href=x>'', ''<b>'', ''hello''], current_length = 18,
       parser = \<lparr>open_tags = [(''a'', [(''href'', Some ''x'')]), (''b'', [])], raw = None\<rparr>,
       close_tags = Some ''</b></a>'', yielded = []\<rparr> ''world wide'')
     = [''<a href='' @ [dquote] @ ''x'' @ [dquote] @ ''><b>'', ''world wide'']
   \<and> current_length (step html_scan 20
      \<lparr>current_fragment = [''<a href=x>'', ''<b>'', ''hello''], current_length = 18,
       parser = \<lparr>open_tags = [(''a'', [(''href'', Some ''x'')]), (''b'', [])], raw = None\<rparr>,
       close_tags = Some ''</b></a>'', yielded = []\<rparr> ''world wide'')
     = 25"
proof -
  let ?st = "\<lparr>current_fragment = [''<a href=x>'', ''<b>'', ''hello''], current_length = 18,
       parser = \<lparr>open_tags = [(''a'', [(''href'', Some ''x'')]), (''b'', [])], raw = None\<rparr>,
       close_tags = Some ''</b></a>'', yielded = []\<rparr> :: string option split_state"
  have h: "current_length ?st + int (length ''world wide'')
             + int (length (rebuild_close_tags (get_open_tags (parser ?st)))) > 20"
    by (simp add: rebuild_close_tags_def get_open_tags_def)
  from cut_closes_and_reopens [OF h, of html_scan] show ?thesis
    by (simp add: rebuild_close_tags_def get_open_tags_def render_open_def render_attr_def)
qed

section \<open>What the tokenizer keeps\<close>






section \<open>The last fragment\<close>

text \<open>
  Claim C1 asks that every fragment, tokenized and tracked on its own, ends with no
  tag open. The fragment yielded after the loop takes the value \<open>close_tags\<close> got
  at the start of the last iteration, before the last token was fed: for the source
  \<open><p>\<close> and \<open>max_len = 100\<close> the only fragment is \<open><p>\<close>, and on its own it
  leaves \<open>p\<close> open.
\<close>

theorem final_fragment_left_open:
  "split_message html_scan ''<p>'' 100 = Inr [''<p>'']
   \<and> open_after html_scan ''<p>'' = [(''p'', [])]"
  by code_simp

text \<open>
  Claim C2 asks that the last fragment ends with the closing tags of exactly the
  tags open at the end of the input. For the source \<open><b>x</b><i>\<close> and
  \<open>max_len = 100\<close> the tag \<open>i\<close> is open when the loop ends, its closing suffix
  would be \<open></i>\<close>, and the fragment is yielded with the empty suffix computed
  before \<open><i>\<close> was fed, so that it leaves \<open>i\<close> open.
\<close>

theorem final_suffix_is_stale:
  "split_parts html_scan ''<b>x</b><i>'' 100 = Inr [([''<b>'', ''x'', ''</b>'', ''<i>''], [])]
   \<and> split_message html_scan ''<b>x</b><i>'' 100 = Inr [''<b>x</b><i>'']
   \<and> rebuild_close_tags (get_open_tags (parser (run_loop html_scan ''<b>x</b><i>'' 100))) = ''</i>''
   \<and> open_after html_scan ''<b>x</b><i>'' = [(''i'', [])]"
  by code_simp

section \<open>The length of a fragment\<close>

text \<open>
  Claim C3 asks that a fragment longer than \<open>max_len\<close> holds a single token. The
  overflow test counts the closing tags of the tags open before the token, not the
  closing tag of a start tag that is being appended: for the source
  \<open>ab<b>cd</b>\<close> and \<open>max_len = 8\<close> the first fragment holds the two tokens
  \<open>ab\<close> and \<open><b>\<close> and, with its closing tag, has 9 characters.
\<close>

theorem start_tag_overshoots:
  "split_parts html_scan ''ab<b>cd</b>'' 8
     = Inr [([''ab'', ''<b>''], ''</b>''), ([''<b>'', ''cd''], ''</b>''), ([''<b>'', ''</b>''], ''</b>'')]
   \<and> split_message html_scan ''ab<b>cd</b>'' 8 = Inr [''ab<b></b>'', ''<b>cd</b>'', ''<b></b></b>'']
   \<and> length ''ab<b></b>'' = 9"
  by code_simp

section \<open>Errors\<close>








section \<open>The second boundary scenario\<close>



end
